theory Spec2Isabelle
  imports Main "HOL-Library.AList"
begin

section \<open>Data model of sbommerge (src/sbommerge/cli.py)\<close>

text \<open>
  The parser hands \<open>main\<close> three Python lists per document: files, packages and
  relationships. Every element is a Python \<open>dict\<close> from attribute names to scalar
  values. A dict is modelled as an association list in insertion order; the keys of a
  well-formed dict are distinct. \<open>AList.update\<close> is Python's \<open>d[k] = v\<close>: it
  overwrites in place when the key is present and appends otherwise.
\<close>

datatype val = VNone | VBool bool | VStr string

type_synonym dict = "(string \<times> val) list"

datatype error = KeyError string

text \<open>Sequencing of fallible steps: the first exception ends the run.\<close>

definition ebind :: "error + 'a \<Rightarrow> ('a \<Rightarrow> error + 'b) \<Rightarrow> error + 'b" where
  "ebind m f = (case m of Inl e \<Rightarrow> Inl e | Inr x \<Rightarrow> f x)"

text \<open>A \<open>for\<close> loop whose body may raise, threading the loop state.\<close>

fun for_each :: "('a \<Rightarrow> 's \<Rightarrow> error + 's) \<Rightarrow> 'a list \<Rightarrow> 's \<Rightarrow> error + 's" where
  "for_each body [] s = Inr s"
| "for_each body (x # xs) s = ebind (body x s) (for_each body xs)"

text \<open>\<open>d[k]\<close>, which raises KeyError on a missing key.\<close>

definition getitem :: "dict \<Rightarrow> string \<Rightarrow> error + val" where
  "getitem d k = (case map_of d k of None \<Rightarrow> Inl (KeyError k) | Some v \<Rightarrow> Inr v)"

text \<open>\<open>k in d\<close>.\<close>

definition has_key :: "dict \<Rightarrow> string \<Rightarrow> bool" where
  "has_key d k = (map_of d k \<noteq> None)"

text \<open>
  \<open>d1 == d2\<close> on dicts: the same keys with equal values, whatever the insertion order.
\<close>

definition dict_eq :: "dict \<Rightarrow> dict \<Rightarrow> bool" where
  "dict_eq a b = list_all (\<lambda>k. map_of a k = map_of b k) (map fst a @ map fst b)"

text \<open>\<open>x in xs\<close> on a list of dicts.\<close>

definition dict_in :: "dict \<Rightarrow> dict list \<Rightarrow> bool" where
  "dict_in x xs = list_ex (dict_eq x) xs"

text \<open>The four counters of lines 122-125.\<close>

record counters =
  updated_info :: int
  identical_info :: int
  additional_info :: int
  merged_info :: int

definition counters0 :: counters where
  "counters0 = \<lparr>updated_info = 0, identical_info = 0, additional_info = 0, merged_info = 0\<rparr>"

subsection \<open>The record builders of lib4sbom\<close>

text \<open>
  Modelled from the spec: the classes SBOMFile, SBOMPackage and SBOMRelationship belong
  to the library lib4sbom, which is not part of this repository. Section 4 of the
  specification and the calls in \<open>cli.py\<close> fix their interface: \<open>initialise\<close> resets
  the record under construction to the empty dict, \<open>set_value\<close> stores one attribute,
  \<open>copy_file\<close>/\<open>copy_package\<close> store every attribute of the given record,
  \<open>get_value\<close> reads an attribute and yields \<open>None\<close> when it is absent,
  \<open>get_name\<close> reads the attribute \<open>name\<close>, and \<open>get_file\<close>/\<open>get_package\<close>/
  \<open>get_relationship\<close> return the record built so far.
\<close>

definition initialise :: dict where
  "initialise = []"

definition set_value :: "dict \<Rightarrow> string \<Rightarrow> val \<Rightarrow> dict" where
  "set_value d k v = AList.update k v d"

definition copy_record :: "dict \<Rightarrow> dict \<Rightarrow> dict" where
  "copy_record d r = fold (\<lambda>(k, v) acc. set_value acc k v) r d"

definition get_value :: "dict \<Rightarrow> string \<Rightarrow> val" where
  "get_value d k = (case map_of d k of None \<Rightarrow> VNone | Some v \<Rightarrow> v)"

definition get_name :: "dict \<Rightarrow> val" where
  "get_name d = get_value d ''name''"

text \<open>
  Modelled from the spec: \<open>set_relationship(source, type, target)\<close> followed by the
  optional \<open>set_source_type\<close> and \<open>set_target_type\<close> of SBOMRelationship.
\<close>

definition set_relationship :: "val \<Rightarrow> val \<Rightarrow> val \<Rightarrow> dict" where
  "set_relationship src ty tgt =
     set_value (set_value (set_value initialise ''source'' src) ''type'' ty) ''target'' tgt"

definition typed_relationship :: "val \<Rightarrow> val \<Rightarrow> val \<Rightarrow> string \<Rightarrow> string \<Rightarrow> dict" where
  "typed_relationship src ty tgt st tt =
     set_value (set_value (set_relationship src ty tgt) ''source_type'' (VStr st))
       ''target_type'' (VStr tt)"

section \<open>Attribute reconciliation (lines 136-158 and 221-243)\<close>

text \<open>
  The first inner loop, \<open>for param in file: p1 = file[param] ...\<close>, run on the items
  of the first record. Every branch stores \<open>param\<close> into the record under
  construction and bumps exactly one counter.
\<close>

definition reconcile_param :: "dict \<Rightarrow> string \<times> val \<Rightarrow> dict \<times> counters \<Rightarrow> dict \<times> counters" where
  "reconcile_param r2 kv st =
     (case kv of (param, p1) \<Rightarrow>
      case st of (sb, c) \<Rightarrow>
       (case map_of r2 param of
          Some p2 \<Rightarrow>
            if p1 = p2 then
              (set_value sb param p1, c\<lparr>identical_info := identical_info c + 1\<rparr>)
            else
              (set_value sb param (if p1 = VStr ''NOASSERTION'' then p2 else p1),
               c\<lparr>updated_info := updated_info c + 1\<rparr>)
        | None \<Rightarrow>
            (set_value sb param p1, c\<lparr>additional_info := additional_info c + 1\<rparr>)))"

text \<open>The second inner loop, \<open>for param in file2: if param not in file: ...\<close>.\<close>

definition reconcile_new :: "dict \<Rightarrow> string \<times> val \<Rightarrow> dict \<Rightarrow> dict" where
  "reconcile_new r1 kv sb =
     (case kv of (param, p2) \<Rightarrow> if \<not> has_key r1 param then set_value sb param p2 else sb)"

definition reconcile :: "dict \<Rightarrow> dict \<Rightarrow> dict \<times> counters \<Rightarrow> dict \<times> counters" where
  "reconcile r1 r2 st =
     (case fold (reconcile_param r2) r1 st of (sb, c) \<Rightarrow> (fold (reconcile_new r1) r2 sb, c))"

section \<open>Merging the files (lines 128-175)\<close>

type_synonym files_map = "(val \<times> dict) list"

text \<open>
  Lines 133-158: every file of the second document whose name equals the name of
  \<open>file\<close> is reconciled into the same record under construction; there is no
  \<open>break\<close>.
\<close>

definition match_file :: "dict \<Rightarrow> dict \<Rightarrow> dict \<times> counters \<Rightarrow> error + dict \<times> counters" where
  "match_file file file2 st =
     ebind (getitem file2 ''name'') (\<lambda>n2.
     ebind (getitem file ''name'') (\<lambda>n1.
       Inr (if n2 = n1 then reconcile file file2 st else st)))"

text \<open>Lines 130-163, the body of \<open>for file in files1\<close>.\<close>

definition merge_file1 :: "dict list \<Rightarrow> dict \<Rightarrow> counters \<times> files_map \<Rightarrow> error + counters \<times> files_map" where
  "merge_file1 files2 file st =
     (case st of (c, files) \<Rightarrow>
       if dict_in file files2 then
         ebind (for_each (match_file file) files2 (initialise, c)) (\<lambda>(sb, c').
           Inr (c', AList.update (get_name sb) sb files))
       else
         ebind (getitem file ''name'') (\<lambda>_.
           let sb = copy_record initialise file in
           Inr (c\<lparr>merged_info := merged_info c + 1\<rparr>, AList.update (get_name sb) sb files)))"

text \<open>Lines 164-175, the body of \<open>for file in files2\<close>.\<close>

definition merge_file2 :: "dict list \<Rightarrow> dict \<Rightarrow> counters \<times> files_map \<Rightarrow> error + counters \<times> files_map" where
  "merge_file2 files1 file st =
     (case st of (c, files) \<Rightarrow>
       if length files1 > 0 then
         if \<not> dict_in file files1 then
           ebind (getitem file ''name'') (\<lambda>_.
             let sb = copy_record initialise file in
             Inr (c\<lparr>merged_info := merged_info c + 1\<rparr>, AList.update (get_name sb) sb files))
         else Inr (c, files)
       else
         let sb = copy_record initialise file in
         Inr (c\<lparr>identical_info := identical_info c + 1\<rparr>, AList.update (get_name sb) sb files))"

definition merge_files :: "dict list \<Rightarrow> dict list \<Rightarrow> counters \<Rightarrow> error + counters \<times> files_map" where
  "merge_files files1 files2 c =
     ebind (for_each (merge_file1 files2) files1 (c, []))
       (for_each (merge_file2 files1) files2)"

section \<open>Merging the packages (lines 177-259)\<close>

type_synonym packages_map = "((val \<times> val) \<times> dict) list"

text \<open>What \<open>logger.info\<close> prints, kept as events rather than formatted text.\<close>

datatype log_event =
    VersionMismatch val val val
  | DoesNotExist string
  | SameFilename

text \<open>The condition of lines 207-211.\<close>

definition version_mismatch :: "dict \<Rightarrow> dict \<Rightarrow> bool" where
  "version_mismatch package package2 =
     (has_key package ''version'' \<and> has_key package2 ''version''
      \<and> get_value package ''version'' \<noteq> get_value package2 ''version'')"

text \<open>
  Lines 205-243, the body of \<open>for package2 in packages2\<close>: the version guard
  reports and skips the pair (\<open>continue\<close>), every other same-named pair is
  reconciled.
\<close>

definition match_package ::
  "dict \<Rightarrow> dict \<Rightarrow> dict \<times> counters \<times> log_event list \<Rightarrow> error + dict \<times> counters \<times> log_event list" where
  "match_package package package2 st =
     (case st of (sb, c, lg) \<Rightarrow>
       ebind (getitem package2 ''name'') (\<lambda>n2.
       ebind (getitem package ''name'') (\<lambda>n1.
         if n2 = n1 then
           if version_mismatch package package2
           then Inr (sb, c, lg @ [VersionMismatch n1 (get_value package ''version'')
                                     (get_value package2 ''version'')])
           else (case reconcile package package2 (sb, c) of (sb', c') \<Rightarrow> Inr (sb', c', lg))
         else Inr st)))"

definition package_key :: "dict \<Rightarrow> val \<times> val" where
  "package_key sb = (get_name sb, get_value sb ''version'')"

text \<open>Lines 201-250, the body of \<open>for package in packages1\<close>.\<close>

definition merge_package1 ::
  "dict list \<Rightarrow> dict \<Rightarrow> counters \<times> packages_map \<times> log_event list
     \<Rightarrow> error + counters \<times> packages_map \<times> log_event list" where
  "merge_package1 packages2 package st =
     (case st of (c, packages, lg) \<Rightarrow>
       if dict_in package packages2 then
         ebind (for_each (match_package package) packages2 (initialise, c, lg)) (\<lambda>(sb, c', lg').
           Inr (c', AList.update (package_key sb) sb packages, lg'))
       else
         ebind (getitem package ''name'') (\<lambda>_.
           let sb = copy_record initialise package in
           Inr (c\<lparr>merged_info := merged_info c + 1\<rparr>,
                AList.update (package_key sb) sb packages, lg)))"

text \<open>Lines 251-259, the body of \<open>for package in packages2\<close>.\<close>

definition merge_package2 ::
  "dict list \<Rightarrow> dict \<Rightarrow> counters \<times> packages_map \<times> log_event list
     \<Rightarrow> error + counters \<times> packages_map \<times> log_event list" where
  "merge_package2 packages1 package st =
     (case st of (c, packages, lg) \<Rightarrow>
       if \<not> dict_in package packages1 then
         ebind (getitem package ''name'') (\<lambda>_.
           let sb = copy_record initialise package in
           Inr (c\<lparr>merged_info := merged_info c + 1\<rparr>,
                AList.update (package_key sb) sb packages, lg))
       else Inr st)"

subsection \<open>The root package (lines 182-200)\<close>

fun split_on :: "char \<Rightarrow> string \<Rightarrow> string list" where
  "split_on c [] = [[]]"
| "split_on c (x # xs) =
     (if x = c then [] # split_on c xs
      else (case split_on c xs of [] \<Rightarrow> [[x]] | w # ws \<Rightarrow> (x # w) # ws))"

text \<open>
  Modelled from the spec: \<open>Path(p).name\<close> of the standard library, the last
  component of a POSIX path, empty and \<open>.\<close> components being skipped.
\<close>

definition path_name :: "string \<Rightarrow> string" where
  "path_name p =
     (case rev (filter (\<lambda>w. w \<noteq> [] \<and> w \<noteq> ''.'') (split_on CHR ''/'' p)) of
        [] \<Rightarrow> [] | w # _ \<Rightarrow> w)"

definition replace_dot :: "string \<Rightarrow> string" where
  "replace_dot s = map (\<lambda>ch. if ch = CHR ''.'' then CHR ''-'' else ch) s"

definition root_package_name :: "string \<Rightarrow> string \<Rightarrow> string" where
  "root_package_name file1 file2 =
     ''MERGETOOL-'' @ replace_dot (path_name file1) @ ''-'' @ replace_dot (path_name file2)"

definition parent_name :: "string \<Rightarrow> string" where
  "parent_name root_package = ''SBOM-'' @ root_package"

text \<open>
  Modelled from the spec: the setters of SBOMPackage used on the root package
  (section 4.4): name, type, filesAnalyzed, the two licences and the supplier pair. None
  of them stores a version.
\<close>

definition root_record :: "string \<Rightarrow> dict" where
  "root_record root_package =
     set_value (set_value (set_value (set_value (set_value (set_value (set_value initialise
       ''name'' (VStr root_package))
       ''type'' (VStr ''application''))
       ''filesanalysis'' (VBool False))
       ''licensedeclared'' (VStr ''NOASSERTION''))
       ''licenseconcluded'' (VStr ''NOASSERTION''))
       ''supplier_type'' (VStr ''UNKNOWN''))
       ''supplier'' (VStr ''NOASSERTION'')"

definition describes_edge :: "string \<Rightarrow> dict" where
  "describes_edge root_package =
     set_relationship (VStr (parent_name root_package)) (VStr ''DESCRIBES'') (VStr root_package)"

definition merge_packages ::
  "string \<Rightarrow> dict list \<Rightarrow> dict list \<Rightarrow> counters
     \<Rightarrow> error + counters \<times> packages_map \<times> log_event list" where
  "merge_packages root_package packages1 packages2 c =
     (let sb = root_record root_package in
      ebind (for_each (merge_package1 packages2) packages1
               (c, AList.update (package_key sb) sb [], []))
        (for_each (merge_package2 packages1) packages2))"

section \<open>Rebuilding the relationships (lines 260-315)\<close>

text \<open>
  The loop variables \<open>source\<close>, \<open>target\<close>, \<open>source_type\<close> and \<open>target_type\<close>;
  Python's \<open>None\<close> is \<open>VNone\<close>.
\<close>

type_synonym endpoints = "val \<times> val \<times> string \<times> string"

definition resolve_file :: "dict \<Rightarrow> dict \<Rightarrow> endpoints \<Rightarrow> error + endpoints" where
  "resolve_file r f st =
     (case st of (src, tgt, sty, tty) \<Rightarrow>
       ebind (getitem f ''name'') (\<lambda>n.
       ebind (getitem r ''source'') (\<lambda>s.
         if n = s then Inr (n, tgt, ''file'', tty)
         else ebind (getitem r ''target'') (\<lambda>t.
           if n = t then Inr (src, n, sty, ''file'') else Inr st))))"

definition resolve_package :: "dict \<Rightarrow> dict \<Rightarrow> endpoints \<Rightarrow> error + endpoints" where
  "resolve_package r p st =
     (case st of (src, tgt, sty, tty) \<Rightarrow>
       ebind (getitem p ''name'') (\<lambda>n.
       ebind (getitem r ''source'') (\<lambda>s.
         if n = s then Inr (n, tgt, sty, tty)
         else ebind (getitem r ''target'') (\<lambda>t.
           if n = t then Inr (src, n, sty, tty) else Inr st))))"

definition resolve :: "dict list \<Rightarrow> dict list \<Rightarrow> dict \<Rightarrow> error + endpoints" where
  "resolve files packages r =
     ebind (for_each (resolve_file r) files (VNone, VNone, ''package'', ''package''))
       (for_each (resolve_package r) packages)"

text \<open>Lines 261-284 (and 286-309), the body of \<open>for r in relationship1\<close>.\<close>

definition rebuild_relationship :: "dict list \<Rightarrow> dict list \<Rightarrow> dict \<Rightarrow> dict list \<Rightarrow> error + dict list" where
  "rebuild_relationship files packages r relationships =
     ebind (resolve files packages r) (\<lambda>(src, tgt, sty, tty).
       if src \<noteq> VNone \<and> tgt \<noteq> VNone then
         ebind (getitem r ''type'') (\<lambda>ty.
           Inr (relationships @ [typed_relationship src ty tgt sty tty]))
       else Inr relationships)"

text \<open>Lines 312-315: \<open>for p in packages\<close> walks the keys; \<open>p[0]\<close> is the name.\<close>

definition contains_edge :: "string \<Rightarrow> val \<times> val \<Rightarrow> dict" where
  "contains_edge root_package p = set_relationship (VStr root_package) (VStr ''CONTAINS'') (fst p)"

definition contains_edges :: "string \<Rightarrow> packages_map \<Rightarrow> dict list" where
  "contains_edges root_package packages = map (contains_edge root_package) (map fst packages)"

section \<open>The whole run (lines 67-359)\<close>

record document =
  doc_files :: "dict list"
  doc_packages :: "dict list"
  doc_relationships :: "dict list"

record merged =
  m_files :: files_map
  m_packages :: packages_map
  m_relationships :: "dict list"
  m_counters :: counters
  m_log :: "log_event list"

text \<open>Lines 121-315: everything between parsing and the summary.\<close>

definition merge_core :: "string \<Rightarrow> document \<Rightarrow> document \<Rightarrow> error + merged" where
  "merge_core root_package d1 d2 =
     ebind (merge_files (doc_files d1) (doc_files d2) counters0) (\<lambda>(c, files).
     ebind (merge_packages root_package (doc_packages d1) (doc_packages d2) c) (\<lambda>(c', packages, lg).
     ebind (for_each (rebuild_relationship (doc_files d1) (doc_packages d1))
              (doc_relationships d1) [describes_edge root_package]) (\<lambda>rels1.
     ebind (for_each (rebuild_relationship (doc_files d2) (doc_packages d2))
              (doc_relationships d2) rels1) (\<lambda>rels2.
       Inr \<lparr>m_files = files, m_packages = packages,
            m_relationships = rels2 @ contains_edges root_package packages,
            m_counters = c', m_log = lg\<rparr>))))"

text \<open>
  Line 356: \<open>(updated_info or additional_info or merged_info) != 0\<close>; Python's
  \<open>or\<close> yields its first operand when that is non-zero and the second otherwise.
\<close>

definition py_or :: "int \<Rightarrow> int \<Rightarrow> int" where
  "py_or a b = (if a \<noteq> 0 then a else b)"

definition exit_code :: "counters \<Rightarrow> int" where
  "exit_code c =
     (if py_or (py_or (updated_info c) (additional_info c)) (merged_info c) \<noteq> 0 then 1 else 0)"

record arguments =
  FILE1 :: string
  FILE2 :: string
  sbom :: string
  sbom_format :: string
  sbom_type :: string
  output_file :: string

text \<open>What is handed to \<open>SBOMGenerator.generate\<close> (lines 339-353).\<close>

record generated =
  gen_sbom_type :: string
  gen_format :: string
  gen_project_name :: string
  gen_filename :: string
  gen_data :: merged

record outcome =
  return_code :: int
  info_log :: "log_event list"
  generated_sbom :: "generated option"

text \<open>
  \<open>main\<close>. The file system (\<open>Path.exists\<close>) and the parser are collaborators and
  enter as parameters: \<open>exists\<close> tells whether a path exists, \<open>parse\<close> maps the
  requested SBOM type and a file name to the parsed document.
\<close>

definition main :: "arguments \<Rightarrow> (string \<Rightarrow> bool) \<Rightarrow> (string \<Rightarrow> string \<Rightarrow> document) \<Rightarrow> error + outcome" where
  "main args exists parse =
     (if FILE1 args \<noteq> FILE2 args then
        (let lg = (if \<not> exists (FILE1 args) then [DoesNotExist (FILE1 args)] else [])
                  @ (if \<not> exists (FILE2 args) then [DoesNotExist (FILE2 args)] else [])
         in
         if \<not> (exists (FILE1 args) \<and> exists (FILE2 args)) then
           Inr \<lparr>return_code = - 1, info_log = lg, generated_sbom = None\<rparr>
         else
           (let d1 = parse (sbom args) (FILE1 args);
                d2 = parse (sbom args) (FILE2 args);
                bom_format = sbom_type args;
                fmt = (if bom_format = ''cyclonedx'' then ''json'' else sbom_format args);
                root_package = root_package_name (FILE1 args) (FILE2 args)
            in
            ebind (merge_core root_package d1 d2) (\<lambda>m.
              Inr \<lparr>return_code = exit_code (m_counters m),
                   info_log = m_log m,
                   generated_sbom = Some \<lparr>gen_sbom_type = bom_format, gen_format = fmt,
                     gen_project_name = parent_name root_package,
                     gen_filename = output_file args, gen_data = m\<rparr>\<rparr>)))
      else
        Inr \<lparr>return_code = - 1, info_log = [SameFilename], generated_sbom = None\<rparr>)"

section \<open>Concrete inputs\<close>

text \<open>Small documents and arguments on which the results below are run.\<close>

definition ex_args :: arguments where
  "ex_args = \<lparr>FILE1 = ''a.json'', FILE2 = ''b.json'', sbom = ''auto'', sbom_format = ''tag'',
     sbom_type = ''spdx'', output_file = []\<rparr>"

definition ex_empty :: document where
  "ex_empty = \<lparr>doc_files = [], doc_packages = [], doc_relationships = []\<rparr>"

definition ex_one_file :: document where
  "ex_one_file =
     \<lparr>doc_files = [[(''name'', VStr ''f'')]], doc_packages = [], doc_relationships = []\<rparr>"

definition ex_na :: dict where
  "ex_na = [(''name'', VStr ''a''), (''licenseDeclared'', VStr ''NOASSERTION'')]"

definition ex_mit :: dict where
  "ex_mit = [(''name'', VStr ''a''), (''licenseDeclared'', VStr ''MIT'')]"

definition ex_apache :: dict where
  "ex_apache = [(''name'', VStr ''a''), (''licenseDeclared'', VStr ''Apache-2.0'')]"

definition ex_plain :: dict where
  "ex_plain = [(''name'', VStr ''a'')]"

definition ex_extra :: dict where
  "ex_extra = [(''name'', VStr ''a''), (''comment'', VStr ''z'')]"

definition ex_na_extra :: dict where
  "ex_na_extra =
     [(''name'', VStr ''a''), (''licenseDeclared'', VStr ''NOASSERTION''), (''comment'', VStr ''z'')]"

definition ex_foo1 :: dict where
  "ex_foo1 = [(''name'', VStr ''libfoo''), (''version'', VStr ''1.0'')]"

definition ex_foo2 :: dict where
  "ex_foo2 = [(''name'', VStr ''libfoo''), (''version'', VStr ''2.0'')]"

definition ex_pkg_a :: dict where
  "ex_pkg_a = [(''name'', VStr ''A'')]"

definition ex_pkg_b :: dict where
  "ex_pkg_b = [(''name'', VStr ''B'')]"

definition ex_rel_self :: dict where
  "ex_rel_self = [(''source'', VStr ''A''), (''type'', VStr ''DEPENDS_ON''), (''target'', VStr ''A'')]"

definition ex_rel_ab :: dict where
  "ex_rel_ab = [(''source'', VStr ''A''), (''type'', VStr ''DEPENDS_ON''), (''target'', VStr ''B'')]"

definition ex_rel_ac :: dict where
  "ex_rel_ac = [(''source'', VStr ''A''), (''type'', VStr ''DEPENDS_ON''), (''target'', VStr ''C'')]"

definition ex_doc_ab :: document where
  "ex_doc_ab = \<lparr>doc_files = [ex_plain], doc_packages = [ex_pkg_a, ex_pkg_b],
     doc_relationships = [ex_rel_ab, ex_rel_ac]\<rparr>"

definition ex_doc_foo :: document where
  "ex_doc_foo = \<lparr>doc_files = [], doc_packages = [ex_foo1], doc_relationships = []\<rparr>"

definition ex_rel_aa :: dict where
  "ex_rel_aa = [(''source'', VStr ''a''), (''type'', VStr ''CONTAINS''), (''target'', VStr ''a'')]"

definition ex_doc_self :: document where
  "ex_doc_self = \<lparr>doc_files = [], doc_packages = [ex_pkg_a], doc_relationships = [ex_rel_self]\<rparr>"

section \<open>Basic facts about the building blocks\<close>

lemma ebind_Inr [simp]: "ebind (Inr x) f = f x"
  by (simp add: ebind_def)

lemma ebind_Inl [simp]: "ebind (Inl e) f = Inl e"
  by (simp add: ebind_def)

lemma ebind_eq_Inr: "ebind m f = Inr y \<longleftrightarrow> (\<exists>x. m = Inr x \<and> f x = Inr y)"
  by (cases m) simp_all

lemma update_fresh: "k \<notin> fst ` set d \<Longrightarrow> AList.update k v d = d @ [(k, v)]"
  by (induction d) auto

text \<open>Copying a well-formed dict into a fresh record reproduces it, order included.\<close>

lemma copy_record_append:
  "distinct (map fst (d @ r)) \<Longrightarrow> copy_record d r = d @ r"
proof (induction r arbitrary: d)
  case Nil
  then show ?case by (simp add: copy_record_def)
next
  case (Cons kv r)
  obtain k v where kv: "kv = (k, v)" by (cases kv)
  from Cons.prems kv have fresh: "k \<notin> fst ` set d" by auto
  from Cons.prems kv have "distinct (map fst ((d @ [(k, v)]) @ r))" by auto
  from Cons.IH [OF this] show ?case
    using fresh kv by (simp add: copy_record_def set_value_def update_fresh)
qed

lemma copy_record_verbatim: "distinct (map fst r) \<Longrightarrow> copy_record initialise r = r"
  using copy_record_append [of "[]" r] by (simp add: initialise_def)

lemma exit_code_iff:
  "exit_code c =
     (if updated_info c \<noteq> 0 \<or> additional_info c \<noteq> 0 \<or> merged_info c \<noteq> 0 then 1 else 0)"
  by (simp add: exit_code_def py_or_def)

text \<open>A run of stores: the last store under a key stands.\<close>

lemma map_of_fold_update_other:
  "k \<notin> key ` set xs \<Longrightarrow>
     map_of (fold (\<lambda>g. AList.update (key g) (h g)) xs acc) k = map_of acc k"
  by (induction xs arbitrary: acc) (auto simp: update_conv')

lemma map_of_fold_update_distinct:
  "x \<in> set xs \<Longrightarrow> distinct (map key xs) \<Longrightarrow>
     map_of (fold (\<lambda>g. AList.update (key g) (h g)) xs acc) (key x) = Some (h x)"
proof (induction xs arbitrary: acc)
  case Nil
  then show ?case by simp
next
  case (Cons y ys)
  show ?case
  proof (cases "x \<in> set ys")
    case True
    with Cons show ?thesis by simp
  next
    case False
    with Cons.prems have xy: "x = y" by simp
    from Cons.prems xy have fresh: "key y \<notin> key ` set ys" by auto
    have "map_of (fold (\<lambda>g. AList.update (key g) (h g)) ys (AList.update (key y) (h y) acc)) (key y)
        = map_of (AList.update (key y) (h y) acc) (key y)"
      using fresh by (rule map_of_fold_update_other)
    then show ?thesis
      by (simp add: xy update_conv')
  qed
qed

section \<open>The second document's files when the first document has none\<close>

lemma for_each_merge_file2_empty:
  "for_each (merge_file2 []) files2 (c, files) =
     Inr (c\<lparr>identical_info := identical_info c + int (length files2)\<rparr>,
          fold (\<lambda>g. AList.update (get_name (copy_record initialise g)) (copy_record initialise g))
            files2 files)"
proof (induction files2 arbitrary: c files)
  case Nil
  then show ?case by simp
next
  case (Cons g gs)
  have step: "merge_file2 [] g (c, files) =
      Inr (c\<lparr>identical_info := identical_info c + 1\<rparr>,
           AList.update (get_name (copy_record initialise g)) (copy_record initialise g) files)"
    by (simp add: merge_file2_def Let_def)
  show ?case by (simp add: step Cons.IH add.assoc)
qed

section \<open>Claim C10: an empty first file collection\<close>

text \<open>
  C10. If document A has no files, every file of document B is copied verbatim into the
  merged file mapping (stored under its name, in order, a later file of the same name
  replacing an earlier one), the unchanged counter goes up by one per copied file, the
  merged counter is left alone, and the exit signal computed from the counters is what it
  was before: these files alone never make the run report differences.
\<close>

theorem merge_files_empty_first:
  assumes wf: "\<forall>g\<in>set files2. distinct (map fst g)"
  shows "\<exists>files.
     merge_files [] files2 c =
       Inr (c\<lparr>identical_info := identical_info c + int (length files2)\<rparr>, files)
     \<and> files = fold (\<lambda>g. AList.update (get_name g) g) files2 []
     \<and> (distinct (map get_name files2) \<longrightarrow>
          (\<forall>g\<in>set files2. map_of files (get_name g) = Some g))
     \<and> merged_info (c\<lparr>identical_info := identical_info c + int (length files2)\<rparr>) = merged_info c
     \<and> exit_code (c\<lparr>identical_info := identical_info c + int (length files2)\<rparr>) = exit_code c"
proof -
  let ?files = "fold (\<lambda>g. AList.update (get_name g) g) files2 []"
  have copy: "copy_record initialise g = g" if "g \<in> set files2" for g
    using wf that by (simp add: copy_record_verbatim)
  have same:
    "fold (\<lambda>g. AList.update (get_name (copy_record initialise g)) (copy_record initialise g))
       files2 [] = ?files"
    by (rule fold_cong) (simp_all add: copy)
  have run: "merge_files [] files2 c =
      Inr (c\<lparr>identical_info := identical_info c + int (length files2)\<rparr>, ?files)"
    by (simp add: merge_files_def for_each_merge_file2_empty same)
  have stored: "distinct (map get_name files2) \<longrightarrow>
      (\<forall>g\<in>set files2. map_of ?files (get_name g) = Some g)"
    using map_of_fold_update_distinct [of _ files2 get_name "\<lambda>g. g" "[]"] by blast
  have sig: "exit_code (c\<lparr>identical_info := identical_info c + int (length files2)\<rparr>) = exit_code c"
    by (simp add: exit_code_def)
  from run stored sig show ?thesis by simp
qed

theorem merge_files_empty_first_witness:
  "merge_files [] [[(''name'', VStr ''a''), (''lic'', VStr ''MIT'')], [(''name'', VStr ''b'')]]
     counters0
     = Inr (counters0\<lparr>identical_info := 2\<rparr>,
            [(VStr ''a'', [(''name'', VStr ''a''), (''lic'', VStr ''MIT'')]),
             (VStr ''b'', [(''name'', VStr ''b'')])])
   \<and> exit_code (counters0\<lparr>identical_info := 2\<rparr>) = 0"
proof -
  let ?fs = "[[(''name'', VStr ''a''), (''lic'', VStr ''MIT'')], [(''name'', VStr ''b'')]]"
  have wf: "\<forall>g\<in>set ?fs. distinct (map fst g)" by simp
  from merge_files_empty_first [OF wf, of counters0]
  show ?thesis by (simp add: counters0_def get_name_def get_value_def exit_code_def py_or_def)
qed

section \<open>Claim C8: the exit signal\<close>

lemma core_empty:
  "(case merge_core (root_package_name ''a.json'' ''b.json'') ex_empty ex_empty of
      Inl _ \<Rightarrow> False | Inr m \<Rightarrow> m_counters m = counters0)"
  by code_simp

lemma core_one:
  "(case merge_core (root_package_name ''a.json'' ''b.json'') ex_one_file ex_empty of
      Inl _ \<Rightarrow> False | Inr m \<Rightarrow> m_counters m = counters0\<lparr>merged_info := 1\<rparr>)"
  by code_simp

text \<open>
  C8. The run ends in one of three ways. Equal file names, or a missing input file, give
  return code -1 with nothing generated, whatever the parser would have delivered: the
  core is not run. Otherwise, once the merge has gone through, the return code is 1
  exactly when the updated, the added or the merged counter is non-zero and 0 when all
  three are zero. The unchanged counter has no part in it.
\<close>

theorem main_exit_signal:
  "(FILE1 args = FILE2 args \<longrightarrow>
      main args exists parse =
        Inr \<lparr>return_code = - 1, info_log = [SameFilename], generated_sbom = None\<rparr>)
   \<and> (FILE1 args \<noteq> FILE2 args \<and> (\<not> exists (FILE1 args) \<or> \<not> exists (FILE2 args)) \<longrightarrow>
      main args exists parse =
        Inr \<lparr>return_code = - 1,
             info_log = (if \<not> exists (FILE1 args) then [DoesNotExist (FILE1 args)] else [])
                        @ (if \<not> exists (FILE2 args) then [DoesNotExist (FILE2 args)] else []),
             generated_sbom = None\<rparr>)
   \<and> (FILE1 args \<noteq> FILE2 args \<and> exists (FILE1 args) \<and> exists (FILE2 args) \<longrightarrow>
      (\<forall>m. merge_core (root_package_name (FILE1 args) (FILE2 args))
              (parse (sbom args) (FILE1 args)) (parse (sbom args) (FILE2 args)) = Inr m \<longrightarrow>
        (\<exists>out g. main args exists parse = Inr out \<and> generated_sbom out = Some g \<and> gen_data g = m
           \<and> return_code out =
               (if updated_info (m_counters m) \<noteq> 0 \<or> additional_info (m_counters m) \<noteq> 0
                   \<or> merged_info (m_counters m) \<noteq> 0 then 1 else 0))))
   \<and> exit_code (c\<lparr>identical_info := n\<rparr>) = exit_code c"
  by (auto simp: main_def Let_def exit_code_iff)

theorem main_exit_signal_witness:
  "main (ex_args\<lparr>FILE2 := ''a.json''\<rparr>) (\<lambda>_. True) (\<lambda>_ _. ex_empty)
     = Inr \<lparr>return_code = - 1, info_log = [SameFilename], generated_sbom = None\<rparr>
   \<and> main ex_args (\<lambda>_. False) (\<lambda>_ _. ex_empty)
     = Inr \<lparr>return_code = - 1, info_log = [DoesNotExist ''a.json'', DoesNotExist ''b.json''],
            generated_sbom = None\<rparr>
   \<and> (\<exists>out. main ex_args (\<lambda>_. True) (\<lambda>_ f. if f = ''a.json'' then ex_one_file else ex_empty)
                = Inr out
         \<and> return_code out = 1)
   \<and> (\<exists>out. main ex_args (\<lambda>_. True) (\<lambda>_ _. ex_empty) = Inr out \<and> return_code out = 0)"
proof -
  have a: "main (ex_args\<lparr>FILE2 := ''a.json''\<rparr>) (\<lambda>_. True) (\<lambda>_ _. ex_empty)
     = Inr \<lparr>return_code = - 1, info_log = [SameFilename], generated_sbom = None\<rparr>"
    using main_exit_signal
      [of "ex_args\<lparr>FILE2 := ''a.json''\<rparr>" "\<lambda>_. True" "\<lambda>_ _. ex_empty" 0 counters0]
    by (simp add: ex_args_def)
  have b: "main ex_args (\<lambda>_. False) (\<lambda>_ _. ex_empty)
     = Inr \<lparr>return_code = - 1, info_log = [DoesNotExist ''a.json'', DoesNotExist ''b.json''],
            generated_sbom = None\<rparr>"
    using main_exit_signal [of ex_args "\<lambda>_. False" "\<lambda>_ _. ex_empty" 0 counters0]
    by (simp add: ex_args_def)
  obtain m1 where m1:
      "merge_core (root_package_name ''a.json'' ''b.json'') ex_one_file ex_empty = Inr m1"
      "m_counters m1 = counters0\<lparr>merged_info := 1\<rparr>"
    using core_one by (auto split: sum.splits)
  obtain m0 where m0:
      "merge_core (root_package_name ''a.json'' ''b.json'') ex_empty ex_empty = Inr m0"
      "m_counters m0 = counters0"
    using core_empty by (auto split: sum.splits)
  have c: "\<exists>out. main ex_args (\<lambda>_. True)
              (\<lambda>_ f. if f = ''a.json'' then ex_one_file else ex_empty) = Inr out
         \<and> return_code out = 1"
    using main_exit_signal
      [of ex_args "\<lambda>_. True" "\<lambda>_ f. if f = ''a.json'' then ex_one_file else ex_empty" 0 counters0]
      m1
    by (auto simp: ex_args_def counters0_def)
  have d: "\<exists>out. main ex_args (\<lambda>_. True) (\<lambda>_ _. ex_empty) = Inr out \<and> return_code out = 0"
    using main_exit_signal [of ex_args "\<lambda>_. True" "\<lambda>_ _. ex_empty" 0 counters0] m0
    by (auto simp: ex_args_def counters0_def)
  from a b c d show ?thesis by blast
qed

section \<open>The reconciler, attribute by attribute\<close>

lemma has_key_iff: "has_key d k \<longleftrightarrow> k \<in> fst ` set d"
  by (simp add: has_key_def map_of_eq_None_iff)

lemma reconcile_param_simp:
  "reconcile_param r2 (k, p1) (sb, c) =
     (set_value sb k (case map_of r2 k of None \<Rightarrow> p1
                       | Some p2 \<Rightarrow> if p1 = VStr ''NOASSERTION'' then p2 else p1),
      case map_of r2 k of
        None \<Rightarrow> c\<lparr>additional_info := additional_info c + 1\<rparr>
      | Some p2 \<Rightarrow> if p1 = p2 then c\<lparr>identical_info := identical_info c + 1\<rparr>
                   else c\<lparr>updated_info := updated_info c + 1\<rparr>)"
  by (auto simp: reconcile_param_def split: option.splits)

lemma reconcile_param_keys:
  "fst ` set (fst (reconcile_param r2 kv st)) = insert (fst kv) (fst ` set (fst st))"
  by (cases kv; cases st) (simp add: reconcile_param_simp set_value_def dom_update)

lemma fold_reconcile_param_keys:
  "fst ` set (fst (fold (reconcile_param r2) r1 st)) = fst ` set r1 \<union> fst ` set (fst st)"
  by (induction r1 arbitrary: st) (auto simp: reconcile_param_keys)

lemma reconcile_new_simp:
  "reconcile_new r1 (k, p2) sb = (if k \<in> fst ` set r1 then sb else set_value sb k p2)"
  by (simp add: reconcile_new_def has_key_iff)

lemma reconcile_new_keys:
  "fst ` set (reconcile_new r1 kv sb) =
     (if fst kv \<in> fst ` set r1 then fst ` set sb else insert (fst kv) (fst ` set sb))"
  by (cases kv) (simp add: reconcile_new_def has_key_iff set_value_def dom_update)

lemma fold_reconcile_new_keys:
  "fst ` set (fold (reconcile_new r1) r2 sb) = (fst ` set r2 - fst ` set r1) \<union> fst ` set sb"
  by (induction r2 arbitrary: sb) (auto simp: reconcile_new_keys)

lemma reconcile_keys:
  "fst ` set (fst (reconcile r1 r2 st)) = fst ` set (fst st) \<union> fst ` set r1 \<union> fst ` set r2"
proof -
  obtain sb c where f: "fold (reconcile_param r2) r1 st = (sb, c)"
    by (cases "fold (reconcile_param r2) r1 st")
  have "fst ` set sb = fst ` set r1 \<union> fst ` set (fst st)"
    using fold_reconcile_param_keys [of r2 r1 st] by (simp add: f)
  moreover have "fst (reconcile r1 r2 st) = fold (reconcile_new r1) r2 sb"
    by (simp add: reconcile_def f)
  ultimately show ?thesis
    by (simp add: fold_reconcile_new_keys) blast
qed

lemma fold_reconcile_param_other:
  "k \<notin> fst ` set r1 \<Longrightarrow>
     map_of (fst (fold (reconcile_param r2) r1 st)) k = map_of (fst st) k"
proof (induction r1 arbitrary: st)
  case Nil
  then show ?case by simp
next
  case (Cons kv r1)
  obtain k' p1 where kv: "kv = (k', p1)" by (cases kv)
  obtain sb c where st: "st = (sb, c)" by (cases st)
  from Cons.prems kv have ne: "k' \<noteq> k" and rest: "k \<notin> fst ` set r1" by auto
  show ?case
    using ne by (simp add: Cons.IH [OF rest] kv st reconcile_param_simp set_value_def update_conv')
qed

lemma fold_reconcile_param_value:
  "distinct (map fst r1) \<Longrightarrow> (k, p1) \<in> set r1 \<Longrightarrow>
     map_of (fst (fold (reconcile_param r2) r1 st)) k =
       Some (case map_of r2 k of None \<Rightarrow> p1
             | Some p2 \<Rightarrow> if p1 = VStr ''NOASSERTION'' then p2 else p1)"
proof (induction r1 arbitrary: st)
  case Nil
  then show ?case by simp
next
  case (Cons kv r1)
  obtain k' q where kv: "kv = (k', q)" by (cases kv)
  obtain sb c where st: "st = (sb, c)" by (cases st)
  show ?case
  proof (cases "(k, p1) \<in> set r1")
    case True
    with Cons show ?thesis by simp
  next
    case False
    with Cons.prems kv have eq: "k' = k" "q = p1" by auto
    from Cons.prems kv eq have fresh: "k \<notin> fst ` set r1" by auto
    show ?thesis
      by (simp add: kv eq st fold_reconcile_param_other [OF fresh] reconcile_param_simp
          set_value_def update_conv')
  qed
qed

lemma fold_reconcile_new_keep:
  "k \<in> fst ` set r1 \<Longrightarrow> map_of (fold (reconcile_new r1) r2 sb) k = map_of sb k"
proof (induction r2 arbitrary: sb)
  case Nil
  then show ?case by simp
next
  case (Cons kv r2)
  obtain k' p2 where kv: "kv = (k', p2)" by (cases kv)
  show ?case
  proof (cases "k' \<in> fst ` set r1")
    case True
    then show ?thesis
      by (simp add: Cons.IH [OF Cons.prems] kv reconcile_new_simp)
  next
    case False
    with Cons.prems have "k' \<noteq> k" by auto
    with False show ?thesis
      by (simp add: Cons.IH [OF Cons.prems] kv reconcile_new_simp set_value_def update_conv')
  qed
qed

lemma fold_reconcile_param_updated:
  "updated_info (snd (fold (reconcile_param r2) r1 st)) =
     updated_info (snd st)
     + int (length (filter (\<lambda>(k, p1). case map_of r2 k of None \<Rightarrow> False | Some p2 \<Rightarrow> p1 \<noteq> p2) r1))"
proof (induction r1 arbitrary: st)
  case Nil
  then show ?case by simp
next
  case (Cons kv r1)
  obtain k p1 where kv: "kv = (k, p1)" by (cases kv)
  obtain sb c where st: "st = (sb, c)" by (cases st)
  show ?case
    by (simp add: Cons.IH kv st reconcile_param_simp split: option.splits)
qed

lemma differing_count:
  assumes d: "distinct (map fst r1)"
  shows "length (filter (\<lambda>(k, p1). case map_of r2 k of None \<Rightarrow> False | Some p2 \<Rightarrow> p1 \<noteq> p2) r1)
     = card {k. \<exists>p1 p2. map_of r1 k = Some p1 \<and> map_of r2 k = Some p2 \<and> p1 \<noteq> p2}"
proof -
  let ?P = "\<lambda>(k, p1). case map_of r2 k of None \<Rightarrow> False | Some p2 \<Rightarrow> p1 \<noteq> p2"
  from d have d1: "distinct r1" by (simp add: distinct_map)
  have inj: "inj_on fst (set (filter ?P r1))"
    using d by (auto simp: inj_on_def dest: eq_key_imp_eq_value)
  have img: "fst ` set (filter ?P r1)
      = {k. \<exists>p1 p2. map_of r1 k = Some p1 \<and> map_of r2 k = Some p2 \<and> p1 \<noteq> p2}"
    using d by (auto simp: image_iff split: option.splits)
  have "card (set (filter ?P r1)) = length (filter ?P r1)"
    by (rule distinct_card) (simp add: d1)
  moreover have "card (fst ` set (filter ?P r1)) = card (set (filter ?P r1))"
    using inj by (rule card_image)
  ultimately show ?thesis by (simp only: img)
qed

section \<open>The reconciler on an attribute with differing values\<close>

text \<open>
  Lines 140-151 and 225-236. When \<open>r1\<close> and \<open>r2\<close> are reconciled and an attribute is
  present in both with differing values, the record under construction holds \<open>r2\<close>'s
  value if \<open>r1\<close>'s value is \<open>NOASSERTION\<close> and \<open>r1\<close>'s value otherwise, whatever
  the record held before; and the updated counter goes up by exactly the number of such
  attributes, one for each.
\<close>

lemma reconcile_differing_attribute:
  assumes "distinct (map fst r1)"
    and "map_of r1 k = Some p1" and "map_of r2 k = Some p2" and "p1 \<noteq> p2"
  shows "map_of (fst (reconcile r1 r2 (sb, c))) k =
           Some (if p1 = VStr ''NOASSERTION'' then p2 else p1)
     \<and> updated_info (snd (reconcile r1 r2 (sb, c))) =
         updated_info c
         + int (card {k. \<exists>p1 p2. map_of r1 k = Some p1 \<and> map_of r2 k = Some p2 \<and> p1 \<noteq> p2})"
proof -
  obtain sb' c' where f: "fold (reconcile_param r2) r1 (sb, c) = (sb', c')"
    by (cases "fold (reconcile_param r2) r1 (sb, c)")
  from assms(2) have mem: "(k, p1) \<in> set r1" by (rule map_of_SomeD)
  then have key: "k \<in> fst ` set r1" by force
  have "map_of sb' k = Some (if p1 = VStr ''NOASSERTION'' then p2 else p1)"
    using fold_reconcile_param_value [OF assms(1) mem, of r2 "(sb, c)"] assms(3) by (simp add: f)
  then have val: "map_of (fst (reconcile r1 r2 (sb, c))) k =
      Some (if p1 = VStr ''NOASSERTION'' then p2 else p1)"
    by (simp add: reconcile_def f fold_reconcile_new_keep [OF key])
  have cnt: "updated_info (snd (reconcile r1 r2 (sb, c))) =
         updated_info c
         + int (length (filter (\<lambda>(k, p1). case map_of r2 k of None \<Rightarrow> False | Some p2 \<Rightarrow> p1 \<noteq> p2) r1))"
    using fold_reconcile_param_updated [of r2 r1 "(sb, c)"] by (simp add: reconcile_def f)
  from val cnt show ?thesis by (simp add: differing_count [OF assms(1)])
qed

section \<open>Claim C2: differing values in the merged record\<close>

text \<open>
  C2 says: for matched records \<open>r1\<close> of A and \<open>r2\<close> of B and an attribute present in
  both with differing values, the merged record holds \<open>r2\<close>'s value when \<open>r1\<close>'s is
  \<open>NOASSERTION\<close> and \<open>r1\<close>'s value otherwise, and the updated counter goes up by
  one. The reconciler does that (\<open>ex_mit\<close> against \<open>ex_na\<close> gives MIT and one update),
  but it runs only under \<open>file in files2\<close> (line 132) and \<open>package in packages2\<close>
  (line 203), and the record that the second loop copies from B replaces whatever is
  stored under the same key. On the claim's own examples the merged record of A = MIT
  and B = NOASSERTION holds NOASSERTION, that of A = MIT and B = Apache-2.0 holds
  Apache-2.0, and in both runs the updated counter stays 0 while the merged counter is 2.
  When B holds an exact copy of A's record as well, the reconciler runs and counts the
  update, and B's differing record is still copied over the reconciled one. Packages
  behave in the same way.
\<close>

theorem differing_values_not_reconciled:
  "get_name ex_mit = get_name ex_na
   \<and> map_of ex_mit ''licenseDeclared'' = Some (VStr ''MIT'')
   \<and> map_of ex_na ''licenseDeclared'' = Some (VStr ''NOASSERTION'')
   \<and> reconcile ex_mit ex_na (initialise, counters0)
       = (ex_mit, counters0\<lparr>updated_info := 1, identical_info := 1\<rparr>)
   \<and> merge_files [ex_mit] [ex_na] counters0
       = Inr (counters0\<lparr>merged_info := 2\<rparr>, [(VStr ''a'', ex_na)])
   \<and> merge_files [ex_mit] [ex_apache] counters0
       = Inr (counters0\<lparr>merged_info := 2\<rparr>, [(VStr ''a'', ex_apache)])
   \<and> merge_files [ex_mit] [ex_mit, ex_na] counters0
       = Inr (counters0\<lparr>updated_info := 1, identical_info := 3, merged_info := 1\<rparr>,
              [(VStr ''a'', ex_na)])
   \<and> merge_packages ''R'' [ex_mit] [ex_na] counters0
       = Inr (counters0\<lparr>merged_info := 2\<rparr>,
              [((VStr ''R'', VNone), root_record ''R''), ((VStr ''a'', VNone), ex_na)],
              [])"
  by code_simp

section \<open>Claim C4: the attributes of a reconciled record\<close>

text \<open>
  C4, as stated, says that the merged record has exactly the attributes of \<open>r1\<close> and
  \<open>r2\<close>. The record under construction is reset once per entity of document A
  (line 131), not once per pair: with two same-named records in B, the pair reconciled
  second inherits what the first pairing stored. Below, \<open>ex_plain\<close> of A is paired with
  \<open>ex_extra\<close> and then with its own copy; the merged record carries \<open>comment\<close>, which
  neither record of the second pair has.
\<close>

theorem reconcile_attribute_union_counterexample:
  "for_each (match_file ex_plain) [ex_extra, ex_plain] (initialise, counters0)
     = Inr (reconcile ex_plain ex_plain (reconcile ex_plain ex_extra (initialise, counters0)))
   \<and> fst (reconcile ex_plain ex_plain (reconcile ex_plain ex_extra (initialise, counters0))) = ex_extra
   \<and> fst ` set ex_extra \<noteq> fst ` set ex_plain \<union> fst ` set ex_plain
   \<and> merge_file1 [ex_extra, ex_plain] ex_plain (counters0, [])
       = Inr (counters0\<lparr>identical_info := 2\<rparr>, [(VStr ''a'', ex_extra)])"
  by code_simp

text \<open>
  C4, amended. After \<open>r1\<close> and \<open>r2\<close> have been reconciled, the attributes of the record
  under construction are those it held before together with those of \<open>r1\<close> and of
  \<open>r2\<close>: nothing is dropped, and on a freshly initialised record (the first pairing of
  an entity) the attribute set is exactly the union of the two.
\<close>

theorem reconcile_attribute_union:
  "fst ` set (fst (reconcile r1 r2 (sb, c))) = fst ` set sb \<union> fst ` set r1 \<union> fst ` set r2
   \<and> fst ` set (fst (reconcile r1 r2 (initialise, c))) = fst ` set r1 \<union> fst ` set r2"
  using reconcile_keys [of r1 r2 "(sb, c)"] reconcile_keys [of r1 r2 "(initialise, c)"]
  by (simp add: initialise_def)

section \<open>Claim C9: several same-named entities in document B\<close>

lemma getitem_name: "has_key a ''name'' \<Longrightarrow> getitem a ''name'' = Inr (get_name a)"
  by (auto simp: has_key_def getitem_def get_name_def get_value_def)








section \<open>Claim C1: a file of A with a same-named, different file in B\<close>

text \<open>
  C1 says: a file of A with an exact copy in B needs no merging; otherwise, a file of B
  with the same name is reconciled with it; otherwise it is copied and counted as merged.
  The code tests \<open>file in files2\<close> (line 132) and reconciles only under that test, so
  the second case never reaches the reconciler. Here \<open>ex_na_extra\<close> of A and \<open>ex_mit\<close>
  of B share the name and differ: the reconciliation would be name, licence MIT and
  comment; the code copies A's record as it is, counts it as merged, and B's record then
  replaces it under the same key.
\<close>

theorem name_match_not_reconciled:
  "\<not> dict_in ex_na_extra [ex_mit]
   \<and> get_name ex_mit = get_name ex_na_extra
   \<and> fst (reconcile ex_na_extra ex_mit (initialise, counters0))
       = [(''name'', VStr ''a''), (''licenseDeclared'', VStr ''MIT''), (''comment'', VStr ''z'')]
   \<and> merge_file1 [ex_mit] ex_na_extra (counters0, [])
       = Inr (counters0\<lparr>merged_info := 1\<rparr>, [(VStr ''a'', ex_na_extra)])
   \<and> merge_files [ex_na_extra] [ex_mit] counters0
       = Inr (counters0\<lparr>merged_info := 2\<rparr>, [(VStr ''a'', ex_mit)])"
  by code_simp

section \<open>Claim C3: the version guard\<close>

text \<open>
  C3 says: two packages of A and B with the same name and differing versions are not
  attribute-merged, and an error is reported. The guard of lines 207-218 sits under
  \<open>package in packages2\<close> (line 203): on the claim's own example, libfoo 1.0 against
  libfoo 2.0, the packages are kept apart but nothing is logged; the report appears only
  when B also holds an exact copy of A's package.
\<close>

theorem version_mismatch_not_reported:
  "version_mismatch ex_foo1 ex_foo2
   \<and> get_name ex_foo1 = get_name ex_foo2
   \<and> merge_packages ''R'' [ex_foo1] [ex_foo2] counters0
       = Inr (counters0\<lparr>merged_info := 2\<rparr>,
              [((VStr ''R'', VNone), root_record ''R''),
               ((VStr ''libfoo'', VStr ''1.0''), ex_foo1),
               ((VStr ''libfoo'', VStr ''2.0''), ex_foo2)],
              [])
   \<and> merge_packages ''R'' [ex_foo1] [ex_foo2, ex_foo1] counters0
       = Inr (counters0\<lparr>identical_info := 2, merged_info := 1\<rparr>,
              [((VStr ''R'', VNone), root_record ''R''),
               ((VStr ''libfoo'', VStr ''1.0''), ex_foo1),
               ((VStr ''libfoo'', VStr ''2.0''), ex_foo2)],
              [VersionMismatch (VStr ''libfoo'') (VStr ''1.0'') (VStr ''2.0'')])"
  by code_simp

section \<open>Resolving the endpoints of a relationship\<close>

lemma getitem_Some: "map_of d k = Some v \<Longrightarrow> getitem d k = Inr v"
  by (simp add: getitem_def)

lemma resolve_file_step:
  assumes "has_key f ''name''" and "getitem r ''source'' = Inr s" and "getitem r ''target'' = Inr t"
  shows "resolve_file r f (src, tgt, sty, tty) =
     Inr (if get_name f = s then (s, tgt, ''file'', tty)
          else if get_name f = t then (src, t, sty, ''file'')
          else (src, tgt, sty, tty))"
  using assms by (simp add: resolve_file_def getitem_name)

lemma resolve_package_step:
  assumes "has_key p ''name''" and "getitem r ''source'' = Inr s" and "getitem r ''target'' = Inr t"
  shows "resolve_package r p (src, tgt, sty, tty) =
     Inr (if get_name p = s then (s, tgt, sty, tty)
          else if get_name p = t then (src, t, sty, tty)
          else (src, tgt, sty, tty))"
  using assms by (simp add: resolve_package_def getitem_name)

lemma for_each_resolve_file:
  assumes src: "getitem r ''source'' = Inr s" and tgt: "getitem r ''target'' = Inr t"
    and names: "\<forall>f\<in>set fs. has_key f ''name''"
  shows "for_each (resolve_file r) fs (src, tgt, sty, tty) =
     Inr (if s \<in> get_name ` set fs then s else src,
          if t \<in> get_name ` set fs \<and> t \<noteq> s then t else tgt,
          if s \<in> get_name ` set fs then ''file'' else sty,
          if t \<in> get_name ` set fs \<and> t \<noteq> s then ''file'' else tty)"
  using names
proof (induction fs arbitrary: src tgt sty tty)
  case Nil
  then show ?case by simp
next
  case (Cons f fs)
  from Cons.prems have f: "has_key f ''name''" and rest: "\<forall>f\<in>set fs. has_key f ''name''"
    by simp_all
  show ?case
    by (simp add: resolve_file_step [OF f src tgt] Cons.IH [OF rest])
qed

lemma for_each_resolve_package:
  assumes src: "getitem r ''source'' = Inr s" and tgt: "getitem r ''target'' = Inr t"
    and names: "\<forall>p\<in>set ps. has_key p ''name''"
  shows "for_each (resolve_package r) ps (src, tgt, sty, tty) =
     Inr (if s \<in> get_name ` set ps then s else src,
          if t \<in> get_name ` set ps \<and> t \<noteq> s then t else tgt,
          sty, tty)"
  using names
proof (induction ps arbitrary: src tgt)
  case Nil
  then show ?case by simp
next
  case (Cons p ps)
  from Cons.prems have p: "has_key p ''name''" and rest: "\<forall>p\<in>set ps. has_key p ''name''"
    by simp_all
  show ?case
    by (simp add: resolve_package_step [OF p src tgt] Cons.IH [OF rest])
qed

lemma resolve_result:
  assumes src: "getitem r ''source'' = Inr s" and tgt: "getitem r ''target'' = Inr t"
    and fnames: "\<forall>f\<in>set fs. has_key f ''name''" and pnames: "\<forall>p\<in>set ps. has_key p ''name''"
  shows "resolve fs ps r =
     Inr (if s \<in> get_name ` (set fs \<union> set ps) then s else VNone,
          if t \<in> get_name ` (set fs \<union> set ps) \<and> t \<noteq> s then t else VNone,
          if s \<in> get_name ` set fs then ''file'' else ''package'',
          if t \<in> get_name ` set fs \<and> t \<noteq> s then ''file'' else ''package'')"
  by (simp add: resolve_def for_each_resolve_file [OF src tgt fnames]
      for_each_resolve_package [OF src tgt pnames] image_Un)

lemma rebuild_relationship_result:
  assumes src: "getitem r ''source'' = Inr s" and tgt: "getitem r ''target'' = Inr t"
    and ty: "getitem r ''type'' = Inr ty"
    and fnames: "\<forall>f\<in>set fs. has_key f ''name''" and pnames: "\<forall>p\<in>set ps. has_key p ''name''"
  shows "rebuild_relationship fs ps r rels =
     Inr (if s \<noteq> VNone \<and> s \<in> get_name ` (set fs \<union> set ps)
             \<and> t \<noteq> VNone \<and> t \<in> get_name ` (set fs \<union> set ps) \<and> t \<noteq> s
          then rels @ [typed_relationship s ty t
                  (if s \<in> get_name ` set fs then ''file'' else ''package'')
                  (if t \<in> get_name ` set fs then ''file'' else ''package'')]
          else rels)"
  by (simp add: rebuild_relationship_def resolve_result [OF src tgt fnames pnames] ty)

section \<open>Claim C7: which relationships are rebuilt\<close>

text \<open>
  A relationship whose source and target carry the same name is never rebuilt, whether
  or not the name belongs to an entity of the document: an entity that matches the
  source is not tried as the target (the \<open>elif\<close> of lines 271 and 277, 296 and 302).
\<close>

lemma same_name_dropped:
  assumes "getitem r ''source'' = Inr s" and "getitem r ''target'' = Inr s"
    and "getitem r ''type'' = Inr ty"
    and "\<forall>f\<in>set fs. has_key f ''name''" and "\<forall>p\<in>set ps. has_key p ''name''"
  shows "rebuild_relationship fs ps r rels = Inr rels"
  using rebuild_relationship_result [OF assms, of rels] by simp

text \<open>
  C7 says: a relationship is rebuilt exactly when its source name and its target name
  both resolve to a file or a package of its own document. The code looks for both ends
  in one pass over the entities and tests the target in an \<open>elif\<close> of the test for the
  source (lines 268-278 and 293-303), so the target is never found when it carries the
  source's name. Below, package A exists and the relationship from A to A names it at
  both ends: nothing is appended, and the merged document holds the synthetic edges
  only. The same happens to a relationship between the file \<open>a\<close> and the package \<open>a\<close>,
  two entities of one name. The relationship from A to B, both present, is rebuilt.
\<close>

theorem same_name_relationship_dropped:
  "getitem ex_rel_self ''source'' = Inr (get_name ex_pkg_a)
   \<and> getitem ex_rel_self ''target'' = Inr (get_name ex_pkg_a)
   \<and> rebuild_relationship [] [ex_pkg_a] ex_rel_self [] = Inr []
   \<and> merge_core ''R'' ex_doc_self ex_empty =
       Inr \<lparr>m_files = [],
            m_packages = [((VStr ''R'', VNone), root_record ''R''), ((VStr ''A'', VNone), ex_pkg_a)],
            m_relationships = [set_relationship (VStr ''SBOM-R'') (VStr ''DESCRIBES'') (VStr ''R''),
                               set_relationship (VStr ''R'') (VStr ''CONTAINS'') (VStr ''R''),
                               set_relationship (VStr ''R'') (VStr ''CONTAINS'') (VStr ''A'')],
            m_counters = counters0\<lparr>merged_info := 1\<rparr>, m_log = []\<rparr>
   \<and> getitem ex_rel_aa ''source'' = Inr (get_name ex_plain)
   \<and> getitem ex_rel_aa ''target'' = Inr (get_name ex_mit)
   \<and> rebuild_relationship [ex_plain] [ex_mit] ex_rel_aa [] = Inr []
   \<and> rebuild_relationship [] [ex_pkg_a, ex_pkg_b] ex_rel_ab []
       = Inr [typed_relationship (VStr ''A'') (VStr ''DEPENDS_ON'') (VStr ''B'') ''package'' ''package'']"
  by code_simp

section \<open>Loops with an invariant, and the order of the rebuilt relationships\<close>



lemma for_each_invariant:
  assumes step: "\<And>x s s'. P s \<Longrightarrow> body x s = Inr s' \<Longrightarrow> P s'"
  shows "P s \<Longrightarrow> for_each body xs s = Inr s' \<Longrightarrow> P s'"
proof (induction xs arbitrary: s)
  case Nil
  then show ?case by simp
next
  case (Cons x xs)
  from Cons.prems(2) obtain s1 where s1: "body x s = Inr s1" and rest: "for_each body xs s1 = Inr s'"
    by (auto simp: ebind_eq_Inr)
  from Cons.prems(1) s1 have "P s1" by (rule step)
  then show ?case using rest by (rule Cons.IH)
qed

lemma rebuild_relationship_append:
  "rebuild_relationship fs ps r rels =
     ebind (rebuild_relationship fs ps r []) (\<lambda>new. Inr (rels @ new))"
  by (auto simp: rebuild_relationship_def ebind_def split: sum.splits prod.splits)

lemma for_each_rebuild_append:
  "for_each (rebuild_relationship fs ps) rs rels =
     ebind (for_each (rebuild_relationship fs ps) rs []) (\<lambda>new. Inr (rels @ new))"
proof (induction rs arbitrary: rels)
  case Nil
  then show ?case by simp
next
  case (Cons r rs)
  show ?case
  proof (cases "rebuild_relationship fs ps r []")
    case (Inl e)
    then have "rebuild_relationship fs ps r rels = Inl e"
      using rebuild_relationship_append [of fs ps r rels] by simp
    with Inl show ?thesis by simp
  next
    case (Inr new)
    then have here: "rebuild_relationship fs ps r rels = Inr (rels @ new)"
      using rebuild_relationship_append [of fs ps r rels] by simp
    show ?thesis
      using Cons.IH [of "rels @ new"] Cons.IH [of new]
      by (cases "for_each (rebuild_relationship fs ps) rs []") (simp_all add: here Inr)
  qed
qed

lemma for_each_rebuild_concat:
  "for_each (rebuild_relationship fs ps) rs [] = Inr out \<Longrightarrow>
     \<exists>es. list_all2 (\<lambda>r e. rebuild_relationship fs ps r [] = Inr e) rs es \<and> out = concat es"
proof (induction rs arbitrary: out)
  case Nil
  then show ?case by simp
next
  case (Cons r rs)
  from Cons.prems obtain e where e: "rebuild_relationship fs ps r [] = Inr e"
    and rest: "for_each (rebuild_relationship fs ps) rs e = Inr out"
    by (auto simp: ebind_eq_Inr)
  from rest obtain new where new: "for_each (rebuild_relationship fs ps) rs [] = Inr new"
    and out: "out = e @ new"
    using for_each_rebuild_append [of fs ps rs e] by (auto simp: ebind_eq_Inr)
  from Cons.IH [OF new] obtain es where
    "list_all2 (\<lambda>r e. rebuild_relationship fs ps r [] = Inr e) rs es" "new = concat es"
    by blast
  with e out have "list_all2 (\<lambda>r e. rebuild_relationship fs ps r [] = Inr e) (r # rs) (e # es)
      \<and> out = concat (e # es)"
    by simp
  then show ?case by blast
qed

lemma update_keeps_head:
  "map fst pk = k0 # rest \<Longrightarrow> \<exists>rest'. map fst (AList.update k v pk) = k0 # rest'"
  by (cases pk) auto

lemma merge_package1_update:
  "merge_package1 ps2 p (c, pk, lg) = Inr (c', pk', lg') \<Longrightarrow>
     \<exists>sb. pk' = AList.update (package_key sb) sb pk"
  by (auto simp: merge_package1_def ebind_eq_Inr Let_def split: if_splits)

lemma merge_package2_update:
  "merge_package2 ps1 p (c, pk, lg) = Inr (c', pk', lg') \<Longrightarrow>
     pk' = pk \<or> (\<exists>sb. pk' = AList.update (package_key sb) sb pk)"
  by (auto simp: merge_package2_def ebind_eq_Inr Let_def split: if_splits)

lemma merge_packages_keys:
  assumes "merge_packages rp ps1 ps2 c = Inr (c', pk, lg)"
  shows "distinct (map fst pk) \<and> (\<exists>rest. map fst pk = (VStr rp, VNone) # rest)"
proof -
  let ?Q = "\<lambda>st. case st of (c, pk, lg) \<Rightarrow>
      distinct (map fst (pk :: packages_map)) \<and> (\<exists>rest. map fst pk = (VStr rp, VNone) # rest)"
  let ?pk0 = "AList.update (package_key (root_record rp)) (root_record rp) []"
  have key0: "package_key (root_record rp) = (VStr rp, VNone)"
    by (simp add: package_key_def root_record_def get_name_def get_value_def set_value_def
        initialise_def)
  have q0: "?Q (c, ?pk0, [])" by (simp add: key0)
  from assms obtain st1 where
    l1: "for_each (merge_package1 ps2) ps1 (c, ?pk0, []) = Inr st1"
    and l2: "for_each (merge_package2 ps1) ps2 st1 = Inr (c', pk, lg)"
    by (auto simp: merge_packages_def Let_def ebind_eq_Inr)
  have upd: "distinct (map fst (AList.update k v pk1))
      \<and> (\<exists>rest. map fst (AList.update k v pk1) = (VStr rp, VNone) # rest)"
    if "distinct (map fst pk1)" "\<exists>rest. map fst pk1 = (VStr rp, VNone) # rest"
    for k v and pk1 :: packages_map
  proof -
    from that(2) obtain rest where "map fst pk1 = (VStr rp, VNone) # rest" ..
    then have "\<exists>rest'. map fst (AList.update k v pk1) = (VStr rp, VNone) # rest'"
      by (rule update_keeps_head)
    moreover from that(1) have "distinct (map fst (AList.update k v pk1))"
      by (simp add: distinct_update)
    ultimately show ?thesis by simp
  qed
  have s1: "?Q s'" if q: "?Q s" and run: "merge_package1 ps2 p s = Inr s'" for p s s'
  proof -
    obtain c1 pk1 lg1 where s: "s = (c1, pk1, lg1)" by (cases s)
    obtain c2 pk2 lg2 where s': "s' = (c2, pk2, lg2)" by (cases s')
    from run s s' obtain sb where pk2: "pk2 = AList.update (package_key sb) sb pk1"
      using merge_package1_update by blast
    from q s have "distinct (map fst pk1)" "\<exists>rest. map fst pk1 = (VStr rp, VNone) # rest"
      by simp_all
    from upd [OF this] show ?thesis by (simp add: s' pk2)
  qed
  have s2: "?Q s'" if q: "?Q s" and run: "merge_package2 ps1 p s = Inr s'" for p s s'
  proof -
    obtain c1 pk1 lg1 where s: "s = (c1, pk1, lg1)" by (cases s)
    obtain c2 pk2 lg2 where s': "s' = (c2, pk2, lg2)" by (cases s')
    from run s s' have alt: "pk2 = pk1 \<or> (\<exists>sb. pk2 = AList.update (package_key sb) sb pk1)"
      using merge_package2_update by blast
    from q s have old: "distinct (map fst pk1)" "\<exists>rest. map fst pk1 = (VStr rp, VNone) # rest"
      by simp_all
    from alt show ?thesis
    proof
      assume "pk2 = pk1"
      with old show ?thesis by (simp add: s')
    next
      assume "\<exists>sb. pk2 = AList.update (package_key sb) sb pk1"
      then obtain sb where "pk2 = AList.update (package_key sb) sb pk1" ..
      with upd [OF old] show ?thesis by (simp add: s')
    qed
  qed
  have "?Q st1"
    using q0 l1 by (rule for_each_invariant [where P = ?Q, rotated]) (rule s1)
  then have "?Q (c', pk, lg)"
    using l2 by (rule for_each_invariant [where P = ?Q, rotated]) (rule s2)
  then show ?thesis by simp
qed

section \<open>Claim C5: the order of the merged relationship sequence\<close>

text \<open>
  C5. Whenever the merge goes through, the relationship sequence is: first the DESCRIBES
  edge from the synthetic document root \<open>SBOM-<root>\<close> to the root package; then what
  each relationship of document 1 contributes, in document order; then the same for
  document 2; and last one CONTAINS edge from the root package per key of the merged
  package mapping, in the mapping's order. The keys are distinct and the first of them
  is the root package's own \<open>(name, None)\<close>, so the edge from the root to itself is
  always among them.
\<close>

theorem relationship_sequence_order:
  assumes "merge_core rp d1 d2 = Inr m"
  shows "\<exists>es1 es2.
      list_all2 (\<lambda>r e. rebuild_relationship (doc_files d1) (doc_packages d1) r [] = Inr e)
        (doc_relationships d1) es1
    \<and> list_all2 (\<lambda>r e. rebuild_relationship (doc_files d2) (doc_packages d2) r [] = Inr e)
        (doc_relationships d2) es2
    \<and> m_relationships m =
        set_relationship (VStr (parent_name rp)) (VStr ''DESCRIBES'') (VStr rp)
        # concat es1 @ concat es2
        @ map (\<lambda>p. set_relationship (VStr rp) (VStr ''CONTAINS'') (fst p)) (map fst (m_packages m))
    \<and> distinct (map fst (m_packages m))
    \<and> (\<exists>rest. map fst (m_packages m) = (VStr rp, VNone) # rest)"
proof -
  from assms obtain c files c' packages lg rels1 rels2 where
    pk: "merge_packages rp (doc_packages d1) (doc_packages d2) c = Inr (c', packages, lg)"
    and r1: "for_each (rebuild_relationship (doc_files d1) (doc_packages d1))
              (doc_relationships d1) [describes_edge rp] = Inr rels1"
    and r2: "for_each (rebuild_relationship (doc_files d2) (doc_packages d2))
              (doc_relationships d2) rels1 = Inr rels2"
    and m: "m = \<lparr>m_files = files, m_packages = packages,
            m_relationships = rels2 @ contains_edges rp packages,
            m_counters = c', m_log = lg\<rparr>"
    by (auto simp: merge_core_def ebind_eq_Inr)
  from r1 obtain new1 where n1: "for_each (rebuild_relationship (doc_files d1) (doc_packages d1))
        (doc_relationships d1) [] = Inr new1" and rels1: "rels1 = [describes_edge rp] @ new1"
    using for_each_rebuild_append [of "doc_files d1" "doc_packages d1" "doc_relationships d1"
        "[describes_edge rp]"]
    by (auto simp: ebind_eq_Inr)
  from r2 obtain new2 where n2: "for_each (rebuild_relationship (doc_files d2) (doc_packages d2))
        (doc_relationships d2) [] = Inr new2" and rels2: "rels2 = rels1 @ new2"
    using for_each_rebuild_append [of "doc_files d2" "doc_packages d2" "doc_relationships d2" rels1]
    by (auto simp: ebind_eq_Inr)
  from for_each_rebuild_concat [OF n1] obtain es1 where
    e1: "list_all2 (\<lambda>r e. rebuild_relationship (doc_files d1) (doc_packages d1) r [] = Inr e)
        (doc_relationships d1) es1" and c1: "new1 = concat es1"
    by blast
  from for_each_rebuild_concat [OF n2] obtain es2 where
    e2: "list_all2 (\<lambda>r e. rebuild_relationship (doc_files d2) (doc_packages d2) r [] = Inr e)
        (doc_relationships d2) es2" and c2: "new2 = concat es2"
    by blast
  have rel: "m_relationships m =
        set_relationship (VStr (parent_name rp)) (VStr ''DESCRIBES'') (VStr rp)
        # concat es1 @ concat es2
        @ map (\<lambda>p. set_relationship (VStr rp) (VStr ''CONTAINS'') (fst p)) (map fst (m_packages m))"
    by (simp add: m rels2 rels1 c1 c2 contains_edges_def describes_edge_def contains_edge_def)
  from merge_packages_keys [OF pk] m have
    k1: "distinct (map fst (m_packages m))"
    and k2: "\<exists>rest. map fst (m_packages m) = (VStr rp, VNone) # rest"
    by simp_all
  show ?thesis
    by (rule exI [where x = es1], rule exI [where x = es2]) (intro conjI e1 e2 rel k1 k2)
qed

lemma core_ab_foo:
  "(case merge_core ''R'' ex_doc_ab ex_doc_foo of
      Inl _ \<Rightarrow> False
    | Inr m \<Rightarrow> m_relationships m =
        [set_relationship (VStr ''SBOM-R'') (VStr ''DESCRIBES'') (VStr ''R''),
         typed_relationship (VStr ''A'') (VStr ''DEPENDS_ON'') (VStr ''B'') ''package'' ''package'',
         set_relationship (VStr ''R'') (VStr ''CONTAINS'') (VStr ''R''),
         set_relationship (VStr ''R'') (VStr ''CONTAINS'') (VStr ''A''),
         set_relationship (VStr ''R'') (VStr ''CONTAINS'') (VStr ''B''),
         set_relationship (VStr ''R'') (VStr ''CONTAINS'') (VStr ''libfoo'')])"
  by code_simp

theorem relationship_sequence_order_witness:
  "\<exists>m. merge_core ''R'' ex_doc_ab ex_doc_foo = Inr m
     \<and> m_relationships m =
        [set_relationship (VStr ''SBOM-R'') (VStr ''DESCRIBES'') (VStr ''R''),
         typed_relationship (VStr ''A'') (VStr ''DEPENDS_ON'') (VStr ''B'') ''package'' ''package'',
         set_relationship (VStr ''R'') (VStr ''CONTAINS'') (VStr ''R''),
         set_relationship (VStr ''R'') (VStr ''CONTAINS'') (VStr ''A''),
         set_relationship (VStr ''R'') (VStr ''CONTAINS'') (VStr ''B''),
         set_relationship (VStr ''R'') (VStr ''CONTAINS'') (VStr ''libfoo'')]
     \<and> distinct (map fst (m_packages m))
     \<and> hd (map fst (m_packages m)) = (VStr ''R'', VNone)"
proof -
  obtain m where run: "merge_core ''R'' ex_doc_ab ex_doc_foo = Inr m"
    and rels: "m_relationships m =
        [set_relationship (VStr ''SBOM-R'') (VStr ''DESCRIBES'') (VStr ''R''),
         typed_relationship (VStr ''A'') (VStr ''DEPENDS_ON'') (VStr ''B'') ''package'' ''package'',
         set_relationship (VStr ''R'') (VStr ''CONTAINS'') (VStr ''R''),
         set_relationship (VStr ''R'') (VStr ''CONTAINS'') (VStr ''A''),
         set_relationship (VStr ''R'') (VStr ''CONTAINS'') (VStr ''B''),
         set_relationship (VStr ''R'') (VStr ''CONTAINS'') (VStr ''libfoo'')]"
    using core_ab_foo by (auto split: sum.splits)
  from relationship_sequence_order [OF run] have
    "distinct (map fst (m_packages m)) \<and> hd (map fst (m_packages m)) = (VStr ''R'', VNone)"
    by auto
  with run rels show ?thesis by blast
qed

section \<open>The names stored in the merged mappings\<close>


























section \<open>The endpoints of the rebuilt relationships\<close>








section \<open>Claim C6: the endpoints of the merged relationships\<close>






end
